theory Spec2Isabelle
  imports Complex_Main "HOL-Library.Multiset"
begin

section \<open>masplit: reducing a matrix of delimited strings\<close>

text \<open>
  A shallow embedding of \<^verbatim>\<open>src/masplit.cpp\<close>: the comparators \<^verbatim>\<open>greater\<close> and
  \<^verbatim>\<open>lesser\<close>, \<^verbatim>\<open>str_vec_to_float_vec\<close> and \<^verbatim>\<open>masplit\<close>.

  Conventions of the embedding.
  \<^item> The four \<^verbatim>\<open>int\<close> arguments are \<open>int\<close>. The only arithmetic on them is
    \<^verbatim>\<open>record - 1\<close> after \<^verbatim>\<open>record >= 1\<close> and \<^verbatim>\<open>record + 1\<close> after that, neither of
    which can leave the range of a 32-bit \<^verbatim>\<open>int\<close>.
  \<^item> A \<^verbatim>\<open>float\<close> is the real number it denotes. Formatted extraction yields finite
    values only, on which \<^verbatim>\<open><\<close> and \<^verbatim>\<open>>\<close> are the order of the reals, and the
    conversion to \<^verbatim>\<open>double\<close> on storing into the result is exact. Rounding to binary32
    is not modelled; what the library stores for a number beyond the range of
    \<^verbatim>\<open>float\<close> is.
  \<^item> Text written to \<^verbatim>\<open>Rcpp::Rcerr\<close> is collected in a list of messages.
\<close>

subsection \<open>R values and matrices\<close>

text \<open>An element of a \<^verbatim>\<open>StringMatrix\<close>: \<^verbatim>\<open>NA_STRING\<close> or a string.\<close>

datatype rstring = NA_STRING | Str string

text \<open>An element of a \<^verbatim>\<open>NumericMatrix\<close>: \<^verbatim>\<open>NA_REAL\<close> or a number.\<close>

datatype rnumeric = NA_REAL | Num real

text \<open>
  An Rcpp matrix: a vector stored column by column, its two extents and its
  \<^verbatim>\<open>dimnames\<close> attribute (\<open>None\<close> for \<^verbatim>\<open>NULL\<close>, otherwise row and column names).
\<close>

record 'a rmatrix =
  nrow :: nat
  ncol :: nat
  dimnames :: "(string list \<times> string list) option"
  elems :: "'a list"

text \<open>\<^verbatim>\<open>m(i,j)\<close> as an rvalue and as the target of an assignment.\<close>

definition cell :: "'a rmatrix \<Rightarrow> nat \<Rightarrow> nat \<Rightarrow> 'a" where
  "cell m i j = elems m ! (i + nrow m * j)"

definition set_cell :: "'a rmatrix \<Rightarrow> nat \<Rightarrow> nat \<Rightarrow> 'a \<Rightarrow> 'a rmatrix" where
  "set_cell m i j v = m\<lparr>elems := (elems m)[i + nrow m * j := v]\<rparr>"

text \<open>A matrix whose vector has as many elements as its extents say.\<close>

definition well_formed :: "'a rmatrix \<Rightarrow> bool" where
  "well_formed m \<longleftrightarrow> length (elems m) = nrow m * ncol m"

subsection \<open>Comparators and sorting\<close>

definition greater_op :: "real \<Rightarrow> real \<Rightarrow> bool" where
  "greater_op a b \<longleftrightarrow> a > b"

definition lesser_op :: "real \<Rightarrow> real \<Rightarrow> bool" where
  "lesser_op a b \<longleftrightarrow> a < b"

text \<open>
  \<^verbatim>\<open>std::sort(first, last, comp)\<close> rearranges the range so that no element is
  \<open>comp\<close>-before an earlier one. On real numbers with \<^verbatim>\<open><\<close> or \<^verbatim>\<open>>\<close> that
  arrangement is unique, so any sorting procedure stands for it; insertion is used here.
\<close>

fun place :: "('a \<Rightarrow> 'a \<Rightarrow> bool) \<Rightarrow> 'a \<Rightarrow> 'a list \<Rightarrow> 'a list" where
  "place cmp x [] = [x]"
| "place cmp x (y # ys) = (if cmp x y then x # y # ys else y # place cmp x ys)"

fun std_sort :: "('a \<Rightarrow> 'a \<Rightarrow> bool) \<Rightarrow> 'a list \<Rightarrow> 'a list" where
  "std_sort cmp [] = []"
| "std_sort cmp (x # xs) = place cmp x (std_sort cmp xs)"

subsection \<open>Splitting and conversion\<close>

text \<open>
  Modelled from the spec: \<^verbatim>\<open>vcfRCommon::strsplit\<close> is declared in \<^verbatim>\<open>vcfRCommon.h\<close>, which
  is not among the sources. The specification describes it as partitioning the text on
  the delimiter character into an ordered sequence of substrings, with no merging of
  consecutive delimiters and with empty substrings kept as tokens of their own.
\<close>

fun strsplit :: "string \<Rightarrow> char \<Rightarrow> string list" where
  "strsplit [] split = [[]]"
| "strsplit (c # cs) split =
     (if c = split then [] # strsplit cs split
      else (case strsplit cs split of
              [] \<Rightarrow> [[c]]
            | t # ts \<Rightarrow> (c # t) # ts))"

text \<open>
  The formatted extraction \<^verbatim>\<open>ss0 >> float_vec[i]\<close> belongs to the C++ library, so the
  model takes it as a parameter. The operator is handed the token and the slot: an
  extractor maps the token and the value the slot holds before the call to the value
  the slot holds after it and to the state of the stream, \<open>True\<close> for success. A
  failed extraction may have stored into the slot.
\<close>

type_synonym extractor = "string \<Rightarrow> real \<Rightarrow> real \<times> bool"

definition failed_msg :: string where
  "failed_msg = ''Failed to convert to a float.\<newline>''"

definition record_msg :: string where
  "record_msg = ''Specified record number is less than one.\<newline>''"

definition decreasing_msg :: string where
  "decreasing_msg = ''Specification of 'decreasing' should be either 0 or 1.\<newline>''"

text \<open>
  The loop of \<^verbatim>\<open>str_vec_to_float_vec\<close> from index \<open>i\<close> on; the state is the vector
  being filled and the text written to \<^verbatim>\<open>Rcerr\<close> so far.
\<close>

function convert_from :: "extractor \<Rightarrow> string list \<Rightarrow> nat \<Rightarrow> real list \<times> string list
    \<Rightarrow> real list \<times> string list" where
  "convert_from ext str_vec i (float_vec, err) =
     (if i < length str_vec then
        (case ext (str_vec ! i) (float_vec ! i) of
           (v, ok) \<Rightarrow>
             convert_from ext str_vec (Suc i)
               (float_vec[i := v], if \<not> ok then err @ [failed_msg] else err))
      else (float_vec, err))"
  by pat_completeness auto
termination
  by (relation "measure (\<lambda>(ext, str_vec, i, st). length str_vec - i)") auto

declare convert_from.simps [simp del]

definition str_vec_to_float_vec :: "extractor \<Rightarrow> string list \<Rightarrow> real list \<times> string list" where
  "str_vec_to_float_vec ext str_vec =
     convert_from ext str_vec 0 (replicate (length str_vec) 0, [])"

subsection \<open>The body of the loops\<close>

text \<open>\<^verbatim>\<open>delim[0]\<close>; on an empty \<^verbatim>\<open>std::string\<close> this is the terminating null character.\<close>

definition delim0 :: "string \<Rightarrow> char" where
  "delim0 delim = (case delim of [] \<Rightarrow> CHR 0x00 | c # _ \<Rightarrow> c)"

text \<open>
  The sorting step of lines 129 to 138: \<open>None\<close> when the function leaves through
  \<^verbatim>\<open>return naMat\<close>, otherwise the vector as it is after the step.
\<close>

definition sort_step :: "int \<Rightarrow> int \<Rightarrow> real list \<Rightarrow> real list option" where
  "sort_step sort_arg decreasing float_vec =
     (if sort_arg = 1 then
        (if decreasing = 1 then Some (std_sort greater_op float_vec)
         else if decreasing = 0 then Some (std_sort lesser_op float_vec)
         else None)
      else Some float_vec)"

text \<open>The selection of lines 141 to 145; \<open>record\<close> is the decremented, zero-based one.\<close>

definition select_record :: "int \<Rightarrow> real list \<Rightarrow> rnumeric" where
  "select_record record float_vec =
     (if record + 1 > int (length float_vec) then NA_REAL
      else Num (float_vec ! nat record))"

text \<open>
  One pass through the body of the inner loop (lines 110 to 150) on the element
  \<open>c = myMat(i,j)\<close>: the value assigned to \<^verbatim>\<open>retMat(i,j)\<close>, or \<open>None\<close> when
  the function returns \<^verbatim>\<open>naMat\<close> from inside the loop, together with the text written
  to \<^verbatim>\<open>Rcerr\<close> on the way. Here too \<open>record\<close> is the decremented one.
\<close>

definition masplit_cell :: "extractor \<Rightarrow> string \<Rightarrow> int \<Rightarrow> int \<Rightarrow> int \<Rightarrow> int \<Rightarrow> rstring
    \<Rightarrow> rnumeric option \<times> string list" where
  "masplit_cell ext delim count_arg record sort_arg decreasing c =
     (case c of
        Str my_string \<Rightarrow>
          (let my_split = delim0 delim;
               col_vec = strsplit my_string my_split;
               (float_vec, err) = str_vec_to_float_vec ext col_vec
           in if count_arg = 1 then (Some (Num (real (length float_vec))), err)
              else (case sort_step sort_arg decreasing float_vec of
                      None \<Rightarrow> (None, err @ [decreasing_msg])
                    | Some sorted_vec \<Rightarrow> (Some (select_record record sorted_vec), err)))
      | NA_STRING \<Rightarrow> (Some NA_REAL, []))"

subsection \<open>The loops and the function\<close>

text \<open>
  The state of a call: the matrix being filled, the text written to \<^verbatim>\<open>Rcerr\<close>, and
  (as instrumentation, not part of the program) the number of assignments
  \<^verbatim>\<open>retMat(i,j) = ...\<close> executed so far. The same record describes a finished call,
  \<open>retMat\<close> then being the matrix returned.
\<close>

record run =
  retMat :: "rnumeric rmatrix"
  Rcerr :: "string list"
  assigned :: nat

text \<open>The body at position \<open>(i, j)\<close>: \<open>Inl\<close> is the early return, \<open>Inr\<close> goes on.\<close>

definition body :: "(rstring \<Rightarrow> rnumeric option \<times> string list) \<Rightarrow> rstring rmatrix
    \<Rightarrow> nat \<Rightarrow> nat \<Rightarrow> run \<Rightarrow> run + run" where
  "body f myMat i j st =
     (case f (cell myMat i j) of
        (None, err) \<Rightarrow> Inl (st\<lparr>Rcerr := Rcerr st @ err\<rparr>)
      | (Some v, err) \<Rightarrow>
          Inr (st\<lparr>retMat := set_cell (retMat st) i j v,
                   Rcerr := Rcerr st @ err,
                   assigned := Suc (assigned st)\<rparr>))"

text \<open>The inner loop over the columns \<open>j\<close> of row \<open>i\<close>, and the outer loop over the rows.\<close>

function inner_loop :: "(rstring \<Rightarrow> rnumeric option \<times> string list) \<Rightarrow> rstring rmatrix
    \<Rightarrow> nat \<Rightarrow> nat \<Rightarrow> run \<Rightarrow> run + run" where
  "inner_loop f myMat i j st =
     (if j < ncol (retMat st) then
        (case body f myMat i j st of
           Inl e \<Rightarrow> Inl e
         | Inr st' \<Rightarrow> inner_loop f myMat i (Suc j) st')
      else Inr st)"
  by pat_completeness auto
termination
  by (relation "measure (\<lambda>(f, myMat, i, j, st). ncol (retMat st) - j)")
     (auto simp: body_def set_cell_def split: prod.splits option.splits)

declare inner_loop.simps [simp del]

function outer_loop :: "(rstring \<Rightarrow> rnumeric option \<times> string list) \<Rightarrow> rstring rmatrix
    \<Rightarrow> nat \<Rightarrow> run \<Rightarrow> run + run" where
  "outer_loop f myMat i st =
     (if i < nrow (retMat st) then
        (case inner_loop f myMat i 0 st of
           Inl e \<Rightarrow> Inl e
         | Inr st' \<Rightarrow> outer_loop f myMat (Suc i) st')
      else Inr st)"
  by pat_completeness auto
termination
proof (relation "measure (\<lambda>(f, myMat, i, st). nrow (retMat st) - i)", goal_cases)
  case 1
  show ?case by simp
next
  case (2 f myMat i st st')
  have keep: "inner_loop f myMat i j s = Inr s' \<Longrightarrow> nrow (retMat s') = nrow (retMat s)"
    for j s s'
  proof (induction f myMat i j s rule: inner_loop.induct)
    case (1 f myMat i j s)
    show ?case
    proof (cases "j < ncol (retMat s)")
      case False
      with "1.prems" show ?thesis
        by (simp add: inner_loop.simps [of f myMat i j s])
    next
      case True
      with "1.prems" obtain s1 where b: "body f myMat i j s = Inr s1"
        and l: "inner_loop f myMat i (Suc j) s1 = Inr s'"
        by (auto simp: inner_loop.simps [of f myMat i j s] split: sum.splits)
      from b have "nrow (retMat s1) = nrow (retMat s)"
        by (auto simp: body_def set_cell_def split: prod.splits option.splits)
      with "1.IH" [OF True b l] show ?thesis by simp
    qed
  qed
  from 2 keep [of 0 st st'] show ?case by simp
qed

declare outer_loop.simps [simp del]

text \<open>\<^verbatim>\<open>naMat\<close>: one row, one column, no \<^verbatim>\<open>dimnames\<close>, holding \<^verbatim>\<open>NA_REAL\<close>.\<close>

definition naMat :: "rnumeric rmatrix" where
  "naMat = \<lparr>nrow = 1, ncol = 1, dimnames = None, elems = [NA_REAL]\<rparr>"

text \<open>
  \<^verbatim>\<open>Rcpp::NumericMatrix retMat(myMat.nrow(), myMat.ncol())\<close> is filled with zeros; it
  then receives the \<^verbatim>\<open>dimnames\<close> of \<^verbatim>\<open>myMat\<close>.
\<close>

definition new_retMat :: "rstring rmatrix \<Rightarrow> rnumeric rmatrix" where
  "new_retMat myMat =
     \<lparr>nrow = nrow myMat, ncol = ncol myMat, dimnames = dimnames myMat,
      elems = replicate (nrow myMat * ncol myMat) (Num 0)\<rparr>"

text \<open>The state on reaching line 96.\<close>

definition entry :: "rstring rmatrix \<Rightarrow> run" where
  "entry myMat = \<lparr>retMat = new_retMat myMat, Rcerr = [], assigned = 0\<rparr>"

definition masplit :: "extractor \<Rightarrow> rstring rmatrix \<Rightarrow> string \<Rightarrow> int \<Rightarrow> int \<Rightarrow> int \<Rightarrow> int \<Rightarrow> run" where
  "masplit ext myMat delim count_arg record sort_arg decreasing =
     (let st = entry myMat
      in if record < 1 then st\<lparr>retMat := naMat, Rcerr := Rcerr st @ [record_msg]\<rparr>
         else
           (case outer_loop (masplit_cell ext delim count_arg (record - 1) sort_arg decreasing)
                   myMat 0 st of
              Inl e \<Rightarrow> e\<lparr>retMat := naMat\<rparr>
            | Inr st' \<Rightarrow> st'))"

text \<open>
  The call leaves through the last line, \<^verbatim>\<open>return retMat\<close>, rather than through one
  of the two \<^verbatim>\<open>return naMat\<close>.
\<close>

definition returns_retMat :: "extractor \<Rightarrow> rstring rmatrix \<Rightarrow> string \<Rightarrow> int \<Rightarrow> int \<Rightarrow> int \<Rightarrow> int
    \<Rightarrow> bool" where
  "returns_retMat ext myMat delim count_arg record sort_arg decreasing \<longleftrightarrow>
     \<not> record < 1 \<and>
     (case outer_loop (masplit_cell ext delim count_arg (record - 1) sort_arg decreasing)
             myMat 0 (entry myMat) of
        Inl e \<Rightarrow> False
      | Inr st' \<Rightarrow> True)"

subsection \<open>Notions used in the statements\<close>

text \<open>
  What a slot of \<^verbatim>\<open>float_vec\<close>, zero before the extraction, holds after it, and what
  is written to \<^verbatim>\<open>Rcerr\<close>, for one token.
\<close>

definition slot_value :: "extractor \<Rightarrow> string \<Rightarrow> real" where
  "slot_value ext tok = fst (ext tok 0)"

definition token_msgs :: "extractor \<Rightarrow> string \<Rightarrow> string list" where
  "token_msgs ext tok = (if \<not> snd (ext tok 0) then [failed_msg] else [])"

text \<open>The matrix has an element other than \<^verbatim>\<open>NA_STRING\<close>.\<close>

definition has_text :: "rstring rmatrix \<Rightarrow> bool" where
  "has_text myMat \<longleftrightarrow>
     (\<exists>i j. i < nrow myMat \<and> j < ncol myMat \<and> cell myMat i j \<noteq> NA_STRING)"

subsection \<open>The extraction of the library\<close>

text \<open>
  To run the model, \<^verbatim>\<open>operator>>(float&)\<close> on a fresh \<^verbatim>\<open>istringstream\<close> as the GNU
  C++ library performs it in the classic locale.
  \<^item> Leading white space is skipped; if nothing is left the stream fails and the slot
    is not written.
  \<^item> The field is read greedily: an optional sign, digits, at most one decimal point
    with further digits, and, once a digit has been read, \<^verbatim>\<open>e\<close> or \<^verbatim>\<open>E\<close> with an
    optional sign and digits. Reading stops at the first character that does not fit;
    what follows is left in the stream.
  \<^item> A field without a mantissa digit, or with an exponent mark and no exponent digit,
    does not convert: the stream fails and zero is stored.
  \<^item> A field whose value is too large for a \<^verbatim>\<open>float\<close> makes the stream fail too, and
    the largest finite \<^verbatim>\<open>float\<close> with the sign of the field is stored.
  \<^item> Otherwise the value of the field is stored (its rounding to binary32 is not
    modelled) and the stream is good.
\<close>

definition is_space :: "char \<Rightarrow> bool" where
  "is_space c \<longleftrightarrow> c = CHR '' '' \<or> (9 \<le> (of_char c :: nat) \<and> (of_char c :: nat) \<le> 13)"

definition is_digit :: "char \<Rightarrow> bool" where
  "is_digit c \<longleftrightarrow> 48 \<le> (of_char c :: nat) \<and> (of_char c :: nat) \<le> 57"

definition digits_value :: "string \<Rightarrow> nat" where
  "digits_value ds = foldl (\<lambda>a c. 10 * a + (of_char c - 48)) 0 ds"

text \<open>An optional sign at the head of the input: whether it is a minus, and the rest.\<close>

definition take_sign :: "string \<Rightarrow> bool \<times> string" where
  "take_sign s =
     (case s of
        [] \<Rightarrow> (False, [])
      | c # cs \<Rightarrow>
          if c = CHR ''-'' then (True, cs)
          else if c = CHR ''+'' then (False, cs)
          else (False, s))"

text \<open>
  The largest finite \<^verbatim>\<open>float\<close>, and the least magnitude that no longer rounds to a
  finite \<^verbatim>\<open>float\<close>.
\<close>

definition FLT_MAX :: real where
  "FLT_MAX = (2 ^ 24 - 1) * 2 ^ 104"

definition FLT_OVER :: real where
  "FLT_OVER = (2 ^ 25 - 1) * 2 ^ 103"

text \<open>The field read from the input, which begins after the white space.\<close>

record field =
  negative :: bool
  int_part :: string
  frac_part :: string
  has_exp :: bool
  exp_negative :: bool
  exp_part :: string

definition scan_field :: "string \<Rightarrow> field" where
  "scan_field s =
     (let (neg, s1) = take_sign s;
          ip = takeWhile is_digit s1;
          s2 = dropWhile is_digit s1;
          has_point = (s2 \<noteq> [] \<and> hd s2 = CHR ''.'');
          fp = (if has_point then takeWhile is_digit (tl s2) else []);
          s3 = (if has_point then dropWhile is_digit (tl s2) else s2);
          he = ((ip \<noteq> [] \<or> fp \<noteq> []) \<and> s3 \<noteq> [] \<and> (hd s3 = CHR ''e'' \<or> hd s3 = CHR ''E''));
          (eneg, s4) = take_sign (tl s3)
      in \<lparr>negative = neg, int_part = ip, frac_part = fp, has_exp = he,
          exp_negative = eneg, exp_part = takeWhile is_digit s4\<rparr>)"

definition field_value :: "field \<Rightarrow> real" where
  "field_value f =
     (let m = real (digits_value (int_part f @ frac_part f)) / 10 ^ length (frac_part f);
          x = (if has_exp f
               then (if exp_negative f then m / 10 ^ digits_value (exp_part f)
                     else m * 10 ^ digits_value (exp_part f))
               else m)
      in if negative f then - x else x)"

text \<open>The conversion of the field: what is stored, and whether the stream is good.\<close>

definition convert_field :: "field \<Rightarrow> real \<times> bool" where
  "convert_field f =
     (if (int_part f = [] \<and> frac_part f = []) \<or> (has_exp f \<and> exp_part f = [])
      then (0, False)
      else if FLT_OVER \<le> \<bar>field_value f\<bar>
      then (if negative f then - FLT_MAX else FLT_MAX, False)
      else (field_value f, True))"

definition float_extract :: extractor where
  "float_extract tok v =
     (let s = dropWhile is_space tok
      in if s = [] then (v, False) else convert_field (scan_field s))"

subsection \<open>Conversion and sorting\<close>

lemma convert_from_eq:
  "i \<le> length str_vec \<Longrightarrow> length float_vec = length str_vec \<Longrightarrow>
   \<forall>k. i \<le> k \<longrightarrow> k < length str_vec \<longrightarrow> float_vec ! k = 0 \<Longrightarrow>
   convert_from ext str_vec i (float_vec, err) =
     (take i float_vec @ map (slot_value ext) (drop i str_vec),
      err @ concat (map (token_msgs ext) (drop i str_vec)))"
proof (induction "length str_vec - i" arbitrary: i float_vec err)
  case 0
  then show ?case
    by (subst convert_from.simps) simp
next
  case (Suc n)
  then have lt: "i < length str_vec" by simp
  have d: "drop i str_vec = str_vec ! i # drop (Suc i) str_vec"
    using lt by (simp add: Cons_nth_drop_Suc)
  have n: "n = length str_vec - Suc i"
    using Suc.hyps(2) by simp
  have z: "float_vec ! i = 0"
    using lt Suc.prems by simp
  obtain v ok where e: "ext (str_vec ! i) 0 = (v, ok)"
    by (cases "ext (str_vec ! i) 0")
  let ?err = "if \<not> ok then err @ [failed_msg] else err"
  have t: "take (Suc i) (float_vec[i := v]) = take i float_vec @ [v]"
    using lt Suc.prems by (simp add: take_Suc_conv_app_nth)
  have "convert_from ext str_vec i (float_vec, err) =
          convert_from ext str_vec (Suc i) (float_vec[i := v], ?err)"
    using lt e z by (subst convert_from.simps) simp
  also have "\<dots> = (take (Suc i) (float_vec[i := v]) @ map (slot_value ext) (drop (Suc i) str_vec),
      ?err @ concat (map (token_msgs ext) (drop (Suc i) str_vec)))"
    by (rule Suc.hyps(1) [OF n]) (use lt Suc.prems in auto)
  finally show ?case
    using e by (simp add: d t slot_value_def token_msgs_def)
qed

lemma str_vec_to_float_vec_eq:
  "str_vec_to_float_vec ext str_vec =
     (map (slot_value ext) str_vec, concat (map (token_msgs ext) str_vec))"
  by (simp add: str_vec_to_float_vec_def convert_from_eq)

lemma mset_place: "mset (place cmp x xs) = add_mset x (mset xs)"
  by (induction xs) auto

lemma mset_std_sort: "mset (std_sort cmp xs) = mset xs"
  by (induction xs) (auto simp: mset_place)

lemma set_place: "set (place cmp x xs) = insert x (set xs)"
  by (induction xs) auto

lemma sorted_place_lesser: "sorted xs \<Longrightarrow> sorted (place lesser_op x xs)"
  by (induction xs) (auto simp: set_place lesser_op_def)

lemma sorted_place_greater:
  "sorted_wrt (\<ge>) xs \<Longrightarrow> sorted_wrt (\<ge>) (place greater_op x xs)"
  by (induction xs) (auto simp: set_place greater_op_def)

lemma std_sort_lesser: "std_sort lesser_op xs = sort xs"
proof -
  have "sorted (std_sort lesser_op xs)"
    by (induction xs) (auto simp: sorted_place_lesser)
  then have "sort xs = std_sort lesser_op xs"
    by (simp add: properties_for_sort mset_std_sort)
  then show ?thesis by simp
qed

lemma std_sort_greater: "std_sort greater_op xs = rev (sort xs)"
proof -
  have "sorted_wrt (\<ge>) (std_sort greater_op xs)"
    by (induction xs) (auto simp: sorted_place_greater)
  then have "sorted (rev (std_sort greater_op xs))"
    by (simp add: sorted_wrt_rev)
  then have "sort xs = rev (std_sort greater_op xs)"
    by (simp add: properties_for_sort mset_std_sort)
  then show ?thesis by simp
qed

subsection \<open>Matrices and the two loops\<close>

lemma idx_less: "i < n \<Longrightarrow> j < m \<Longrightarrow> i + n * j < n * (m::nat)"
proof -
  assume a: "i < n" "j < m"
  then have "i + n * j < n + n * j" by simp
  also have "\<dots> = n * Suc j" by simp
  also have "\<dots> \<le> n * m" using a by (intro mult_le_mono2) simp
  finally show ?thesis .
qed

lemma idx_inj:
  "i < n \<Longrightarrow> i' < n \<Longrightarrow> (i + n * j = i' + n * j') = (i = i' \<and> j = (j'::nat))"
proof
  assume a: "i < n" "i' < n" and e: "i + n * j = i' + n * j'"
  from e have "(i + n * j) mod n = (i' + n * j') mod n" by simp
  with a have i: "i = i'" by simp
  from e have "(i + n * j) div n = (i' + n * j') div n" by simp
  with a have "j = j'" by simp
  with i show "i = i' \<and> j = j'" by simp
qed simp

lemma cell_set_cell:
  "well_formed m \<Longrightarrow> i < nrow m \<Longrightarrow> j < ncol m \<Longrightarrow> i' < nrow m \<Longrightarrow> j' < ncol m \<Longrightarrow>
   cell (set_cell m i j v) i' j' = (if i' = i \<and> j' = j then v else cell m i' j')"
  using idx_less [of i "nrow m" j "ncol m"] idx_inj [of i' "nrow m" i j' j]
  by (auto simp: cell_def set_cell_def well_formed_def)

lemma set_cell_fields:
  "nrow (set_cell m i j v) = nrow m" "ncol (set_cell m i j v) = ncol m"
  "dimnames (set_cell m i j v) = dimnames m"
  "well_formed (set_cell m i j v) = well_formed m"
  by (simp_all add: set_cell_def well_formed_def)

lemma body_Some:
  "f (cell myMat i j) = (Some v, err) \<Longrightarrow>
   body f myMat i j st =
     Inr (st\<lparr>retMat := set_cell (retMat st) i j v, Rcerr := Rcerr st @ err,
            assigned := Suc (assigned st)\<rparr>)"
  by (simp add: body_def)

lemma body_None:
  "f (cell myMat i j) = (None, err) \<Longrightarrow>
   body f myMat i j st = Inl (st\<lparr>Rcerr := Rcerr st @ err\<rparr>)"
  by (simp add: body_def)

lemma inner_loop_done:
  "\<not> j < ncol (retMat st) \<Longrightarrow> inner_loop f myMat i j st = Inr st"
  by (subst inner_loop.simps) simp

lemma inner_loop_step:
  "j < ncol (retMat st) \<Longrightarrow> body f myMat i j st = Inr st1 \<Longrightarrow>
   inner_loop f myMat i j st = inner_loop f myMat i (Suc j) st1"
  by (subst inner_loop.simps) simp

lemma inner_loop_stop:
  "j < ncol (retMat st) \<Longrightarrow> body f myMat i j st = Inl e \<Longrightarrow>
   inner_loop f myMat i j st = Inl e"
  by (subst inner_loop.simps) simp

lemma inner_loop_Inr:
  assumes "well_formed (retMat st)" "i < nrow (retMat st)"
    and "\<forall>j'. j \<le> j' \<and> j' < ncol (retMat st) \<longrightarrow> fst (f (cell myMat i j')) \<noteq> None"
  shows "\<exists>st'. inner_loop f myMat i j st = Inr st' \<and>
           nrow (retMat st') = nrow (retMat st) \<and> ncol (retMat st') = ncol (retMat st) \<and>
           dimnames (retMat st') = dimnames (retMat st) \<and> well_formed (retMat st') \<and>
           assigned st' = assigned st + (ncol (retMat st) - j) \<and>
           Rcerr st' = Rcerr st @ concat (map (\<lambda>j'. snd (f (cell myMat i j'))) [j..<ncol (retMat st)]) \<and>
           (\<forall>i' j'. i' < nrow (retMat st) \<and> j' < ncol (retMat st) \<longrightarrow>
              cell (retMat st') i' j' =
                (if i' = i \<and> j \<le> j' then the (fst (f (cell myMat i j')))
                 else cell (retMat st) i' j'))"
  using assms
proof (induction "ncol (retMat st) - j" arbitrary: j st)
  case 0
  then have "inner_loop f myMat i j st = Inr st"
    by (simp add: inner_loop_done)
  with 0 show ?case by auto
next
  case (Suc n)
  then have lt: "j < ncol (retMat st)" by simp
  with Suc.prems obtain v err where fv: "f (cell myMat i j) = (Some v, err)"
    by (cases "f (cell myMat i j)") auto
  define st1 where "st1 = st\<lparr>retMat := set_cell (retMat st) i j v, Rcerr := Rcerr st @ err,
            assigned := Suc (assigned st)\<rparr>"
  have b: "body f myMat i j st = Inr st1"
    using fv by (simp add: body_Some st1_def)
  have e1: "nrow (retMat st1) = nrow (retMat st)" "ncol (retMat st1) = ncol (retMat st)"
    "dimnames (retMat st1) = dimnames (retMat st)" "well_formed (retMat st1)"
    "assigned st1 = Suc (assigned st)" "Rcerr st1 = Rcerr st @ err"
    using Suc.prems by (simp_all add: st1_def set_cell_fields)
  have c1: "cell (retMat st1) i' j' = (if i' = i \<and> j' = j then v else cell (retMat st) i' j')"
    if "i' < nrow (retMat st)" "j' < ncol (retMat st)" for i' j'
    using that Suc.prems lt by (simp add: st1_def cell_set_cell)
  have n: "n = ncol (retMat st1) - Suc j"
    using Suc.hyps(2) e1 by simp
  have "\<forall>j'. Suc j \<le> j' \<and> j' < ncol (retMat st1) \<longrightarrow> fst (f (cell myMat i j')) \<noteq> None"
    using Suc.prems e1 by simp
  from Suc.hyps(1) [OF n e1(4) _ this] Suc.prems(2) e1
  obtain st' where l: "inner_loop f myMat i (Suc j) st1 = Inr st'"
    and e': "nrow (retMat st') = nrow (retMat st)" "ncol (retMat st') = ncol (retMat st)"
      "dimnames (retMat st') = dimnames (retMat st)" "well_formed (retMat st')"
      "assigned st' = Suc (assigned st) + (ncol (retMat st) - Suc j)"
      "Rcerr st' = (Rcerr st @ err) @
         concat (map (\<lambda>j'. snd (f (cell myMat i j'))) [Suc j..<ncol (retMat st)])"
    and c': "\<forall>i' j'. i' < nrow (retMat st) \<and> j' < ncol (retMat st) \<longrightarrow>
              cell (retMat st') i' j' =
                (if i' = i \<and> Suc j \<le> j' then the (fst (f (cell myMat i j')))
                 else cell (retMat st1) i' j')"
    by auto
  have r: "inner_loop f myMat i j st = Inr st'"
    using inner_loop_step [OF lt b] l by simp
  have u: "[j..<ncol (retMat st)] = j # [Suc j..<ncol (retMat st)]"
    using lt by (simp add: upt_conv_Cons)
  have cc: "\<forall>i' j'. i' < nrow (retMat st) \<and> j' < ncol (retMat st) \<longrightarrow>
              cell (retMat st') i' j' =
                (if i' = i \<and> j \<le> j' then the (fst (f (cell myMat i j')))
                 else cell (retMat st) i' j')"
  proof (intro allI impI)
    fix i' j'
    assume a: "i' < nrow (retMat st) \<and> j' < ncol (retMat st)"
    show "cell (retMat st') i' j' =
                (if i' = i \<and> j \<le> j' then the (fst (f (cell myMat i j')))
                 else cell (retMat st) i' j')"
    proof (cases "i' = i \<and> j' = j")
      case True
      with a c' c1 fv show ?thesis by simp
    next
      case False
      with a c' c1 show ?thesis by (auto simp: Suc_le_eq le_less)
    qed
  qed
  have "assigned st' = assigned st + (ncol (retMat st) - j)"
    using e'(5) lt by simp
  moreover have "Rcerr st' = Rcerr st @ concat (map (\<lambda>j'. snd (f (cell myMat i j'))) [j..<ncol (retMat st)])"
    using e'(6) fv by (simp add: u)
  ultimately show ?case
    using r e'(1-4) cc by blast
qed

lemma inner_loop_Inl:
  assumes "j \<le> j0" "j0 < ncol (retMat st)" "fst (f (cell myMat i j0)) = None"
  shows "\<exists>e c pre. inner_loop f myMat i j st = Inl e \<and> fst (f c) = None \<and>
           Rcerr e = pre @ snd (f c)"
  using assms
proof (induction "j0 - j" arbitrary: j st)
  case 0
  then have j: "j = j0" by simp
  obtain err where fv: "f (cell myMat i j0) = (None, err)"
    using 0 by (cases "f (cell myMat i j0)") auto
  have "inner_loop f myMat i j st = Inl (st\<lparr>Rcerr := Rcerr st @ err\<rparr>)"
    using 0 fv by (simp add: j inner_loop_stop body_None)
  moreover have "snd (f (cell myMat i j0)) = err" using fv by simp
  ultimately show ?case using 0(4) by fastforce
next
  case (Suc n)
  then have lt: "j < ncol (retMat st)" by simp
  show ?case
  proof (cases "f (cell myMat i j)")
    case (Pair r err)
    show ?thesis
    proof (cases r)
      case None
      have "inner_loop f myMat i j st = Inl (st\<lparr>Rcerr := Rcerr st @ err\<rparr>)"
        using lt Pair None by (simp add: inner_loop_stop body_None)
      moreover have "fst (f (cell myMat i j)) = None" "snd (f (cell myMat i j)) = err"
        using Pair None by simp_all
      ultimately show ?thesis by fastforce
    next
      case (Some v)
      define st1 where "st1 = st\<lparr>retMat := set_cell (retMat st) i j v, Rcerr := Rcerr st @ err,
            assigned := Suc (assigned st)\<rparr>"
      have b: "body f myMat i j st = Inr st1"
        using Pair Some by (simp add: body_Some st1_def)
      have n: "n = j0 - Suc j" using Suc.hyps(2) by simp
      have "j0 < ncol (retMat st1)" using Suc.prems by (simp add: st1_def set_cell_fields)
      moreover have "Suc j \<le> j0" using Suc.hyps(2) by simp
      ultimately have "\<exists>e c pre. inner_loop f myMat i (Suc j) st1 = Inl e \<and> fst (f c) = None \<and>
           Rcerr e = pre @ snd (f c)"
        using Suc.hyps(1) [OF n] Suc.prems(3) by blast
      then show ?thesis
        using inner_loop_step [OF lt b] by simp
    qed
  qed
qed

lemma outer_loop_done:
  "\<not> i < nrow (retMat st) \<Longrightarrow> outer_loop f myMat i st = Inr st"
  by (subst outer_loop.simps) simp

lemma outer_loop_step:
  "i < nrow (retMat st) \<Longrightarrow> inner_loop f myMat i 0 st = Inr st1 \<Longrightarrow>
   outer_loop f myMat i st = outer_loop f myMat (Suc i) st1"
  by (subst outer_loop.simps) simp

lemma outer_loop_stop:
  "i < nrow (retMat st) \<Longrightarrow> inner_loop f myMat i 0 st = Inl e \<Longrightarrow>
   outer_loop f myMat i st = Inl e"
  by (subst outer_loop.simps) simp

lemma outer_loop_Inr:
  assumes "well_formed (retMat st)"
    and "\<forall>i' j'. i \<le> i' \<and> i' < nrow (retMat st) \<and> j' < ncol (retMat st) \<longrightarrow>
           fst (f (cell myMat i' j')) \<noteq> None"
  shows "\<exists>st'. outer_loop f myMat i st = Inr st' \<and>
           nrow (retMat st') = nrow (retMat st) \<and> ncol (retMat st') = ncol (retMat st) \<and>
           dimnames (retMat st') = dimnames (retMat st) \<and> well_formed (retMat st') \<and>
           assigned st' = assigned st + (nrow (retMat st) - i) * ncol (retMat st) \<and>
           Rcerr st' = Rcerr st @
             concat (map (\<lambda>i'. concat (map (\<lambda>j'. snd (f (cell myMat i' j')))
                                       [0..<ncol (retMat st)])) [i..<nrow (retMat st)]) \<and>
           (\<forall>i' j'. i' < nrow (retMat st) \<and> j' < ncol (retMat st) \<longrightarrow>
              cell (retMat st') i' j' =
                (if i \<le> i' then the (fst (f (cell myMat i' j')))
                 else cell (retMat st) i' j'))"
  using assms
proof (induction "nrow (retMat st) - i" arbitrary: i st)
  case 0
  then have "outer_loop f myMat i st = Inr st"
    by (simp add: outer_loop_done)
  with 0 show ?case by auto
next
  case (Suc n)
  then have lt: "i < nrow (retMat st)" by simp
  have "\<forall>j'. 0 \<le> j' \<and> j' < ncol (retMat st) \<longrightarrow> fst (f (cell myMat i j')) \<noteq> None"
    using Suc.prems lt by simp
  from inner_loop_Inr [OF Suc.prems(1) lt this]
  obtain st1 where l1: "inner_loop f myMat i 0 st = Inr st1"
    and e1: "nrow (retMat st1) = nrow (retMat st)" "ncol (retMat st1) = ncol (retMat st)"
      "dimnames (retMat st1) = dimnames (retMat st)" "well_formed (retMat st1)"
      "assigned st1 = assigned st + ncol (retMat st)"
      "Rcerr st1 = Rcerr st @ concat (map (\<lambda>j'. snd (f (cell myMat i j'))) [0..<ncol (retMat st)])"
    and c1: "\<forall>i' j'. i' < nrow (retMat st) \<and> j' < ncol (retMat st) \<longrightarrow>
              cell (retMat st1) i' j' =
                (if i' = i then the (fst (f (cell myMat i j')))
                 else cell (retMat st) i' j')"
    by auto
  have n: "n = nrow (retMat st1) - Suc i"
    using Suc.hyps(2) e1 by simp
  have "\<forall>i' j'. Suc i \<le> i' \<and> i' < nrow (retMat st1) \<and> j' < ncol (retMat st1) \<longrightarrow>
           fst (f (cell myMat i' j')) \<noteq> None"
    using Suc.prems e1 by simp
  from Suc.hyps(1) [OF n e1(4) this] e1
  obtain st' where l: "outer_loop f myMat (Suc i) st1 = Inr st'"
    and e': "nrow (retMat st') = nrow (retMat st)" "ncol (retMat st') = ncol (retMat st)"
      "dimnames (retMat st') = dimnames (retMat st)" "well_formed (retMat st')"
      "assigned st' = (assigned st + ncol (retMat st)) +
         (nrow (retMat st) - Suc i) * ncol (retMat st)"
      "Rcerr st' = (Rcerr st @ concat (map (\<lambda>j'. snd (f (cell myMat i j'))) [0..<ncol (retMat st)])) @
             concat (map (\<lambda>i'. concat (map (\<lambda>j'. snd (f (cell myMat i' j')))
                                       [0..<ncol (retMat st)])) [Suc i..<nrow (retMat st)])"
    and c': "\<forall>i' j'. i' < nrow (retMat st) \<and> j' < ncol (retMat st) \<longrightarrow>
              cell (retMat st') i' j' =
                (if Suc i \<le> i' then the (fst (f (cell myMat i' j')))
                 else cell (retMat st1) i' j')"
    by auto
  have r: "outer_loop f myMat i st = Inr st'"
    using outer_loop_step [OF lt l1] l by simp
  have u: "[i..<nrow (retMat st)] = i # [Suc i..<nrow (retMat st)]"
    using lt by (simp add: upt_conv_Cons)
  have cc: "\<forall>i' j'. i' < nrow (retMat st) \<and> j' < ncol (retMat st) \<longrightarrow>
              cell (retMat st') i' j' =
                (if i \<le> i' then the (fst (f (cell myMat i' j')))
                 else cell (retMat st) i' j')"
  proof (intro allI impI)
    fix i' j'
    assume a: "i' < nrow (retMat st) \<and> j' < ncol (retMat st)"
    show "cell (retMat st') i' j' =
                (if i \<le> i' then the (fst (f (cell myMat i' j')))
                 else cell (retMat st) i' j')"
    proof (cases "i' = i")
      case True
      with a c' c1 show ?thesis by simp
    next
      case False
      with a c' c1 show ?thesis by (auto simp: Suc_le_eq le_less)
    qed
  qed
  have "nrow (retMat st) - i = Suc (nrow (retMat st) - Suc i)"
    using lt by simp
  then have "assigned st' = assigned st + (nrow (retMat st) - i) * ncol (retMat st)"
    using e'(5) by simp
  moreover have "Rcerr st' = Rcerr st @
             concat (map (\<lambda>i'. concat (map (\<lambda>j'. snd (f (cell myMat i' j')))
                                       [0..<ncol (retMat st)])) [i..<nrow (retMat st)])"
    using e'(6) by (simp add: u)
  ultimately show ?case
    using r e'(1-4) cc by blast
qed

lemma outer_loop_Inl:
  assumes "well_formed (retMat st)" "i \<le> i0" "i0 < nrow (retMat st)" "j0 < ncol (retMat st)"
    and "fst (f (cell myMat i0 j0)) = None"
  shows "\<exists>e c pre. outer_loop f myMat i st = Inl e \<and> fst (f c) = None \<and>
           Rcerr e = pre @ snd (f c)"
  using assms
proof (induction "i0 - i" arbitrary: i st)
  case 0
  then have i: "i = i0" by simp
  from inner_loop_Inl [of 0 j0 st f myMat i0] 0
  obtain e c pre where "inner_loop f myMat i0 0 st = Inl e" "fst (f c) = None"
    "Rcerr e = pre @ snd (f c)"
    by auto
  then show ?case
    using 0 outer_loop_stop [of i0 st f myMat e] by (auto simp: i)
next
  case (Suc n)
  then have lt: "i < nrow (retMat st)" by simp
  show ?case
  proof (cases "\<exists>j1 < ncol (retMat st). fst (f (cell myMat i j1)) = None")
    case True
    then obtain j1 where "j1 < ncol (retMat st)" "fst (f (cell myMat i j1)) = None"
      by auto
    from inner_loop_Inl [of 0 j1 st f myMat i] this
    obtain e c pre where "inner_loop f myMat i 0 st = Inl e" "fst (f c) = None"
      "Rcerr e = pre @ snd (f c)"
      by auto
    then show ?thesis
      using outer_loop_stop [OF lt, of f myMat e] by auto
  next
    case False
    then have "\<forall>j'. 0 \<le> j' \<and> j' < ncol (retMat st) \<longrightarrow> fst (f (cell myMat i j')) \<noteq> None"
      by auto
    from inner_loop_Inr [OF Suc.prems(1) lt this]
    obtain st1 where l1: "inner_loop f myMat i 0 st = Inr st1"
      and e1: "nrow (retMat st1) = nrow (retMat st)" "ncol (retMat st1) = ncol (retMat st)"
        "well_formed (retMat st1)"
      by auto
    have n: "n = i0 - Suc i" using Suc.hyps(2) by simp
    have "Suc i \<le> i0" using Suc.hyps(2) by simp
    from Suc.hyps(1) [OF n e1(3) this] Suc.prems e1
    have "\<exists>e c pre. outer_loop f myMat (Suc i) st1 = Inl e \<and> fst (f c) = None \<and>
           Rcerr e = pre @ snd (f c)"
      by simp
    then show ?thesis
      using outer_loop_step [OF lt l1] by simp
  qed
qed

subsection \<open>The function as a whole\<close>

lemma masplit_cell_NA:
  "masplit_cell ext delim count_arg record sort_arg decreasing NA_STRING = (Some NA_REAL, [])"
  by (simp add: masplit_cell_def)

lemma masplit_cell_Str:
  "masplit_cell ext delim count_arg record sort_arg decreasing (Str text) =
     (if count_arg = 1
      then (Some (Num (real (length (strsplit text (delim0 delim))))),
            concat (map (token_msgs ext) (strsplit text (delim0 delim))))
      else (case sort_step sort_arg decreasing
                   (map (slot_value ext) (strsplit text (delim0 delim))) of
              None \<Rightarrow> (None, concat (map (token_msgs ext) (strsplit text (delim0 delim)))
                               @ [decreasing_msg])
            | Some sorted_vec \<Rightarrow>
                (Some (select_record record sorted_vec),
                 concat (map (token_msgs ext) (strsplit text (delim0 delim))))))"
  by (simp add: masplit_cell_def str_vec_to_float_vec_eq Let_def)

lemma masplit_cell_None:
  "fst (masplit_cell ext delim count_arg record sort_arg decreasing c) = None \<longleftrightarrow>
     c \<noteq> NA_STRING \<and> count_arg \<noteq> 1 \<and> sort_arg = 1 \<and> decreasing \<noteq> 1 \<and> decreasing \<noteq> 0"
proof (cases c)
  case NA_STRING
  then show ?thesis by (simp add: masplit_cell_NA)
next
  case (Str my_string)
  then have c: "c = Str my_string" .
  show ?thesis
    by (cases "sort_step sort_arg decreasing (map (slot_value ext) (strsplit my_string (delim0 delim)))")
       (auto simp: c masplit_cell_Str sort_step_def split: if_splits)
qed

lemma masplit_cell_last:
  "fst (masplit_cell ext delim count_arg record sort_arg decreasing c) = None \<Longrightarrow>
   \<exists>pre. snd (masplit_cell ext delim count_arg record sort_arg decreasing c) = pre @ [decreasing_msg]"
proof (cases c)
  case NA_STRING
  assume "fst (masplit_cell ext delim count_arg record sort_arg decreasing c) = None"
  with NA_STRING show ?thesis by (simp add: masplit_cell_NA)
next
  case (Str my_string)
  then have c: "c = Str my_string" .
  assume "fst (masplit_cell ext delim count_arg record sort_arg decreasing c) = None"
  then show ?thesis
    by (cases "sort_step sort_arg decreasing (map (slot_value ext) (strsplit my_string (delim0 delim)))")
       (auto simp: c masplit_cell_Str split: if_splits)
qed

lemma entry_fields:
  "nrow (retMat (entry myMat)) = nrow myMat" "ncol (retMat (entry myMat)) = ncol myMat"
  "dimnames (retMat (entry myMat)) = dimnames myMat" "well_formed (retMat (entry myMat))"
  "assigned (entry myMat) = 0" "Rcerr (entry myMat) = []"
  by (simp_all add: entry_def new_retMat_def well_formed_def)

lemma masplit_full:
  assumes "1 \<le> record"
    and "\<not> (has_text myMat \<and> count_arg \<noteq> 1 \<and> sort_arg = 1 \<and> decreasing \<noteq> 1 \<and> decreasing \<noteq> 0)"
  shows "returns_retMat ext myMat delim count_arg record sort_arg decreasing"
    and "nrow (retMat (masplit ext myMat delim count_arg record sort_arg decreasing)) = nrow myMat"
    and "ncol (retMat (masplit ext myMat delim count_arg record sort_arg decreasing)) = ncol myMat"
    and "dimnames (retMat (masplit ext myMat delim count_arg record sort_arg decreasing))
           = dimnames myMat"
    and "well_formed (retMat (masplit ext myMat delim count_arg record sort_arg decreasing))"
    and "assigned (masplit ext myMat delim count_arg record sort_arg decreasing)
           = nrow myMat * ncol myMat"
    and "Rcerr (masplit ext myMat delim count_arg record sort_arg decreasing) =
           concat (map (\<lambda>i. concat (map (\<lambda>j. snd (masplit_cell ext delim count_arg (record - 1)
                           sort_arg decreasing (cell myMat i j))) [0..<ncol myMat])) [0..<nrow myMat])"
    and "\<And>i j. i < nrow myMat \<Longrightarrow> j < ncol myMat \<Longrightarrow>
           fst (masplit_cell ext delim count_arg (record - 1) sort_arg decreasing (cell myMat i j))
             = Some (cell (retMat (masplit ext myMat delim count_arg record sort_arg decreasing)) i j)"
proof -
  let ?f = "masplit_cell ext delim count_arg (record - 1) sort_arg decreasing"
  have ok: "\<forall>i' j'. 0 \<le> i' \<and> i' < nrow (retMat (entry myMat)) \<and> j' < ncol (retMat (entry myMat)) \<longrightarrow>
           fst (?f (cell myMat i' j')) \<noteq> None"
    using assms(2) by (auto simp: masplit_cell_None has_text_def entry_fields)
  from outer_loop_Inr [OF entry_fields(4) ok]
  obtain st' where l: "outer_loop ?f myMat 0 (entry myMat) = Inr st'"
    and e: "nrow (retMat st') = nrow myMat" "ncol (retMat st') = ncol myMat"
      "dimnames (retMat st') = dimnames myMat" "well_formed (retMat st')"
      "assigned st' = nrow myMat * ncol myMat"
      "Rcerr st' = concat (map (\<lambda>i. concat (map (\<lambda>j. snd (?f (cell myMat i j)))
                           [0..<ncol myMat])) [0..<nrow myMat])"
    and c: "\<forall>i' j'. i' < nrow myMat \<and> j' < ncol myMat \<longrightarrow>
              cell (retMat st') i' j' = the (fst (?f (cell myMat i' j')))"
    by (auto simp: entry_fields)
  have m: "masplit ext myMat delim count_arg record sort_arg decreasing = st'"
    using assms(1) l by (simp add: masplit_def)
  show "returns_retMat ext myMat delim count_arg record sort_arg decreasing"
    using assms(1) l by (simp add: returns_retMat_def)
  show "nrow (retMat (masplit ext myMat delim count_arg record sort_arg decreasing)) = nrow myMat"
    "ncol (retMat (masplit ext myMat delim count_arg record sort_arg decreasing)) = ncol myMat"
    "dimnames (retMat (masplit ext myMat delim count_arg record sort_arg decreasing))
           = dimnames myMat"
    "well_formed (retMat (masplit ext myMat delim count_arg record sort_arg decreasing))"
    "assigned (masplit ext myMat delim count_arg record sort_arg decreasing)
           = nrow myMat * ncol myMat"
    "Rcerr (masplit ext myMat delim count_arg record sort_arg decreasing) =
           concat (map (\<lambda>i. concat (map (\<lambda>j. snd (?f (cell myMat i j))) [0..<ncol myMat]))
                    [0..<nrow myMat])"
    using e by (simp_all add: m)
  fix i j
  assume a: "i < nrow myMat" "j < ncol myMat"
  then have "fst (?f (cell myMat i j)) \<noteq> None"
    using ok by (simp add: entry_fields)
  then show "fst (?f (cell myMat i j))
      = Some (cell (retMat (masplit ext myMat delim count_arg record sort_arg decreasing)) i j)"
    using c a by (auto simp: m)
qed

lemma masplit_refused:
  assumes "1 \<le> record" "has_text myMat"
    and "count_arg \<noteq> 1" "sort_arg = 1" "decreasing \<noteq> 1" "decreasing \<noteq> 0"
  shows "\<not> returns_retMat ext myMat delim count_arg record sort_arg decreasing"
    and "retMat (masplit ext myMat delim count_arg record sort_arg decreasing) = naMat"
    and "\<exists>pre. Rcerr (masplit ext myMat delim count_arg record sort_arg decreasing)
           = pre @ [decreasing_msg]"
proof -
  let ?f = "masplit_cell ext delim count_arg (record - 1) sort_arg decreasing"
  from assms(2) obtain i0 j0 where a: "i0 < nrow myMat" "j0 < ncol myMat"
    "cell myMat i0 j0 \<noteq> NA_STRING"
    by (auto simp: has_text_def)
  then have "fst (?f (cell myMat i0 j0)) = None"
    using assms by (simp add: masplit_cell_None)
  from outer_loop_Inl [of "entry myMat" 0 i0 j0 ?f myMat] this a
  obtain e c pre where l: "outer_loop ?f myMat 0 (entry myMat) = Inl e"
    and n: "fst (?f c) = None" and r: "Rcerr e = pre @ snd (?f c)"
    by (auto simp: entry_fields)
  from masplit_cell_last [OF n] obtain pre' where "snd (?f c) = pre' @ [decreasing_msg]"
    by auto
  with r have r': "Rcerr e = (pre @ pre') @ [decreasing_msg]" by simp
  have m: "masplit ext myMat delim count_arg record sort_arg decreasing = e\<lparr>retMat := naMat\<rparr>"
    using assms(1) l by (simp add: masplit_def)
  show "\<not> returns_retMat ext myMat delim count_arg record sort_arg decreasing"
    using l by (simp add: returns_retMat_def)
  show "retMat (masplit ext myMat delim count_arg record sort_arg decreasing) = naMat"
    by (simp add: m)
  show "\<exists>pre. Rcerr (masplit ext myMat delim count_arg record sort_arg decreasing)
           = pre @ [decreasing_msg]"
    using r' unfolding m by (intro exI [of _ "pre @ pre'"]) simp
qed

lemma masplit_record:
  "record < 1 \<Longrightarrow>
   masplit ext myMat delim count_arg record sort_arg decreasing =
     \<lparr>retMat = naMat, Rcerr = [record_msg], assigned = 0\<rparr>"
  by (simp add: masplit_def entry_def)

lemma returns_retMat_iff:
  "returns_retMat ext myMat delim count_arg record sort_arg decreasing \<longleftrightarrow>
     1 \<le> record \<and>
     \<not> (has_text myMat \<and> count_arg \<noteq> 1 \<and> sort_arg = 1 \<and> decreasing \<noteq> 1 \<and> decreasing \<noteq> 0)"
proof (cases "1 \<le> record")
  case False
  then show ?thesis by (simp add: returns_retMat_def)
next
  case True
  show ?thesis
    using masplit_full(1) [OF True, of myMat count_arg sort_arg decreasing ext delim]
      masplit_refused(1) [OF True, of myMat count_arg sort_arg decreasing ext delim] True
    by blast
qed

lemma masplit_cell_value:
  assumes "returns_retMat ext myMat delim count_arg record sort_arg decreasing"
    and "i < nrow myMat" "j < ncol myMat"
  shows "fst (masplit_cell ext delim count_arg (record - 1) sort_arg decreasing (cell myMat i j))
     = Some (cell (retMat (masplit ext myMat delim count_arg record sort_arg decreasing)) i j)"
proof -
  from assms(1) have r: "1 \<le> record"
    and n: "\<not> (has_text myMat \<and> count_arg \<noteq> 1 \<and> sort_arg = 1 \<and> decreasing \<noteq> 1 \<and> decreasing \<noteq> 0)"
    by (simp_all add: returns_retMat_iff)
  from masplit_full(8) [OF r n assms(2,3)] show ?thesis .
qed

lemma sort_step_eq:
  "sort_arg = 1 \<longrightarrow> decreasing = 0 \<or> decreasing = 1 \<Longrightarrow>
   sort_step sort_arg decreasing xs =
     Some (if sort_arg = 1 then (if decreasing = 1 then rev (sort xs) else sort xs) else xs)"
  by (auto simp: sort_step_def std_sort_greater std_sort_lesser)

lemma select_record_eq:
  "1 \<le> record \<Longrightarrow>
   select_record (record - 1) xs =
     (if int (length xs) < record then NA_REAL else Num (xs ! nat (record - 1)))"
  by (simp add: select_record_def)

lemma masplit_select:
  assumes "1 \<le> record" "count_arg \<noteq> 1" "sort_arg = 1 \<longrightarrow> decreasing = 0 \<or> decreasing = 1"
    and "i < nrow myMat" "j < ncol myMat" "cell myMat i j = Str my_string"
  shows "returns_retMat ext myMat delim count_arg record sort_arg decreasing"
    and "cell (retMat (masplit ext myMat delim count_arg record sort_arg decreasing)) i j =
      select_record (record - 1)
        (if sort_arg = 1
         then (if decreasing = 1
               then rev (sort (map (slot_value ext) (strsplit my_string (delim0 delim))))
               else sort (map (slot_value ext) (strsplit my_string (delim0 delim))))
         else map (slot_value ext) (strsplit my_string (delim0 delim)))"
proof -
  show r: "returns_retMat ext myMat delim count_arg record sort_arg decreasing"
    using assms(1,3) by (auto simp: returns_retMat_iff)
  from masplit_cell_value [OF r assms(4,5)]
  show "cell (retMat (masplit ext myMat delim count_arg record sort_arg decreasing)) i j =
      select_record (record - 1)
        (if sort_arg = 1
         then (if decreasing = 1
               then rev (sort (map (slot_value ext) (strsplit my_string (delim0 delim))))
               else sort (map (slot_value ext) (strsplit my_string (delim0 delim))))
         else map (slot_value ext) (strsplit my_string (delim0 delim)))"
    using assms(2) by (simp add: assms(6) masplit_cell_Str sort_step_eq [OF assms(3)])
qed

lemma one_by_one:
  "nrow m = 1 \<Longrightarrow> ncol m = 1 \<Longrightarrow> dimnames m = None \<Longrightarrow> well_formed m \<Longrightarrow>
   cell m 0 0 = NA_REAL \<Longrightarrow> (m :: rnumeric rmatrix) = naMat"
proof -
  assume a: "nrow m = 1" "ncol m = 1" "dimnames m = None" "well_formed m" "cell m 0 0 = NA_REAL"
  from a(1,2,4) have "length (elems m) = 1"
    by (simp add: well_formed_def)
  then obtain x where x: "elems m = [x]"
    by (cases "elems m") auto
  with a(5) have "elems m = [NA_REAL]"
    by (simp add: cell_def)
  with a(1,2,3) show ?thesis
    by (simp add: naMat_def)
qed

lemma masplit_cell_delim:
  "delim0 delim = delim0 delim' \<Longrightarrow>
   masplit_cell ext delim count_arg record sort_arg decreasing
     = masplit_cell ext delim' count_arg record sort_arg decreasing"
  by (rule ext) (simp add: masplit_cell_def split: rstring.split)

lemma strsplit_not_Nil: "strsplit s d \<noteq> []"
  by (induction s) (auto split: list.splits)

lemma length_strsplit: "length (strsplit s d) = Suc (count_list s d)"
  by (induction s) (auto simp: strsplit_not_Nil split: list.splits)



section \<open>The claims\<close>

text \<open>
  C7. When \<open>record\<close> is zero or negative the function returns \<open>naMat\<close> at line 98,
  before either loop is entered: whatever the matrix, the mode and the sort settings,
  the result is the one by one matrix holding \<^verbatim>\<open>NA_REAL\<close>, the only text written is
  the message about the record number, and no element of \<open>retMat\<close> has been assigned.
\<close>

theorem record_below_one_returns_naMat:
  "record < 1 \<Longrightarrow>
     masplit ext myMat delim count_arg record sort_arg decreasing =
       \<lparr>retMat = naMat, Rcerr = [record_msg], assigned = 0\<rparr> \<and>
     \<not> returns_retMat ext myMat delim count_arg record sort_arg decreasing"
  by (simp add: masplit_record returns_retMat_def)

theorem record_below_one_returns_naMat_witness:
  "(0::int) < 1 \<and>
   masplit float_extract
       \<lparr>nrow = 1, ncol = 2, dimnames = None, elems = [Str ''7,2,12'', NA_STRING]\<rparr>
       '','' 1 0 0 7 =
     \<lparr>retMat = naMat, Rcerr = [record_msg], assigned = 0\<rparr> \<and>
   \<not> returns_retMat float_extract
       \<lparr>nrow = 1, ncol = 2, dimnames = None, elems = [Str ''7,2,12'', NA_STRING]\<rparr>
       '','' 1 0 0 7"
  using record_below_one_returns_naMat [of 0 float_extract
      "\<lparr>nrow = 1, ncol = 2, dimnames = None, elems = [Str ''7,2,12'', NA_STRING]\<rparr>"
      "'',''" 1 0 7]
  by simp

text \<open>
  C1, as stated, does not hold: a value of \<open>decreasing\<close> other than 0 and 1 is not
  looked at before the loops. On a matrix of two missing elements the call runs to the
  end, assigns both elements and returns a matrix that is not \<open>naMat\<close>; with
  \<open>count = 1\<close> it returns the count 3 for \<^verbatim>\<open>7,2,12\<close>; with \<open>sort = 0\<close> it returns
  the first token, 7.
\<close>

theorem decreasing_unchecked_counterexample:
  "retMat (masplit float_extract
       \<lparr>nrow = 1, ncol = 2, dimnames = None, elems = [NA_STRING, NA_STRING]\<rparr>
       '','' 0 1 1 2) \<noteq> naMat \<and>
   assigned (masplit float_extract
       \<lparr>nrow = 1, ncol = 2, dimnames = None, elems = [NA_STRING, NA_STRING]\<rparr>
       '','' 0 1 1 2) = 2 \<and>
   retMat (masplit float_extract
       \<lparr>nrow = 1, ncol = 1, dimnames = None, elems = [Str ''7,2,12'']\<rparr>
       '','' 1 1 1 2) =
     \<lparr>nrow = 1, ncol = 1, dimnames = None, elems = [Num 3]\<rparr> \<and>
   retMat (masplit float_extract
       \<lparr>nrow = 1, ncol = 1, dimnames = None, elems = [Str ''7,2,12'']\<rparr>
       '','' 0 1 0 2) =
     \<lparr>nrow = 1, ncol = 1, dimnames = None, elems = [Num 7]\<rparr>"
  by code_simp

text \<open>
  C1, amended. With \<open>record\<close> at least one and \<open>decreasing\<close> neither 0 nor 1, the
  function returns \<open>naMat\<close>, the message about \<open>decreasing\<close> being the last text it
  writes, exactly when \<open>count\<close> is not 1, \<open>sort\<close> is 1 and the matrix has an element
  that is not missing: the flag is examined inside the loops, where it is used. In the
  other cases the flag is never examined, every element is assigned and the result has
  the extents of the input.
\<close>

theorem decreasing_checked_where_used:
  "1 \<le> record \<Longrightarrow> decreasing \<noteq> 0 \<Longrightarrow> decreasing \<noteq> 1 \<Longrightarrow>
     (if count_arg \<noteq> 1 \<and> sort_arg = 1 \<and> has_text myMat
      then retMat (masplit ext myMat delim count_arg record sort_arg decreasing) = naMat \<and>
           \<not> returns_retMat ext myMat delim count_arg record sort_arg decreasing \<and>
           (\<exists>pre. Rcerr (masplit ext myMat delim count_arg record sort_arg decreasing)
                    = pre @ [decreasing_msg])
      else returns_retMat ext myMat delim count_arg record sort_arg decreasing \<and>
           nrow (retMat (masplit ext myMat delim count_arg record sort_arg decreasing))
             = nrow myMat \<and>
           ncol (retMat (masplit ext myMat delim count_arg record sort_arg decreasing))
             = ncol myMat \<and>
           assigned (masplit ext myMat delim count_arg record sort_arg decreasing)
             = nrow myMat * ncol myMat)"
proof (cases "count_arg \<noteq> 1 \<and> sort_arg = 1 \<and> has_text myMat")
  case True
  assume "1 \<le> record" "decreasing \<noteq> 0" "decreasing \<noteq> 1"
  with True masplit_refused [of "record" myMat count_arg sort_arg decreasing ext delim]
  show ?thesis by simp
next
  case False
  assume r: "1 \<le> record"
  from False
  have "\<not> (has_text myMat \<and> count_arg \<noteq> 1 \<and> sort_arg = 1 \<and> decreasing \<noteq> 1 \<and> decreasing \<noteq> 0)"
    by blast
  from masplit_full(1,2,3,6) [OF r this, of ext delim] False
  show ?thesis by auto
qed

theorem decreasing_checked_where_used_witness:
  "(1::int) \<le> 1 \<and> (2::int) \<noteq> 0 \<and> (2::int) \<noteq> 1 \<and>
   has_text \<lparr>nrow = 1, ncol = 2, dimnames = None, elems = [NA_STRING, Str ''7,x,12'']\<rparr> \<and>
   retMat (masplit float_extract
       \<lparr>nrow = 1, ncol = 2, dimnames = None, elems = [NA_STRING, Str ''7,x,12'']\<rparr>
       '','' 0 1 1 2) = naMat \<and>
   (\<exists>pre. Rcerr (masplit float_extract
       \<lparr>nrow = 1, ncol = 2, dimnames = None, elems = [NA_STRING, Str ''7,x,12'']\<rparr>
       '','' 0 1 1 2) = pre @ [decreasing_msg])"
proof -
  let ?G = "\<lparr>nrow = 1, ncol = 2, dimnames = None, elems = [NA_STRING, Str ''7,x,12'']\<rparr>"
  have h: "has_text ?G"
    unfolding has_text_def by (intro exI [of _ 0] exI [of _ 1]) (simp add: cell_def)
  from decreasing_checked_where_used [of 1 2 0 1 ?G float_extract "'',''"] h
  show ?thesis by simp
qed

text \<open>
  C3. Whenever the call leaves through \<^verbatim>\<open>return retMat\<close>, an element of the input
  that is \<^verbatim>\<open>NA_STRING\<close> is \<^verbatim>\<open>NA_REAL\<close> in the result, in either mode and under
  every sort setting. The body does nothing else for such an element: whatever the
  extractor, it is not consulted and nothing is written to \<^verbatim>\<open>Rcerr\<close>.
\<close>

theorem missing_in_missing_out:
  "returns_retMat ext myMat delim count_arg record sort_arg decreasing \<Longrightarrow>
   i < nrow myMat \<Longrightarrow> j < ncol myMat \<Longrightarrow> cell myMat i j = NA_STRING \<Longrightarrow>
     cell (retMat (masplit ext myMat delim count_arg record sort_arg decreasing)) i j = NA_REAL \<and>
     masplit_cell ext delim count_arg (record - 1) sort_arg decreasing (cell myMat i j)
       = (Some NA_REAL, [])"
  using masplit_cell_value [of ext myMat delim count_arg "record" sort_arg decreasing i j]
  by (simp add: masplit_cell_NA)

theorem missing_in_missing_out_witness:
  "returns_retMat float_extract
     \<lparr>nrow = 2, ncol = 1, dimnames = None, elems = [Str ''7,2,12'', NA_STRING]\<rparr> '','' 0 1 1 1 \<and>
   (1::nat) < 2 \<and> (0::nat) < 1 \<and>
   cell \<lparr>nrow = 2, ncol = 1, dimnames = None, elems = [Str ''7,2,12'', NA_STRING]\<rparr> 1 0
     = NA_STRING \<and>
   cell (retMat (masplit float_extract
     \<lparr>nrow = 2, ncol = 1, dimnames = None, elems = [Str ''7,2,12'', NA_STRING]\<rparr> '','' 0 1 1 1))
     1 0 = NA_REAL"
proof -
  let ?G = "\<lparr>nrow = 2, ncol = 1, dimnames = None, elems = [Str ''7,2,12'', NA_STRING]\<rparr>"
  have r: "returns_retMat float_extract ?G '','' 0 1 1 1"
    by code_simp
  have c: "cell ?G 1 0 = NA_STRING"
    by (simp add: cell_def)
  from missing_in_missing_out [OF r _ _ c] r c show ?thesis by simp
qed

text \<open>
  C4. With \<open>count = 1\<close> and \<open>record\<close> at least one the call always runs to the end,
  and the result for an element that is not missing is the number of tokens into which
  its text is split on \<^verbatim>\<open>delim[0]\<close>, whatever \<open>sort\<close>, \<open>decreasing\<close> and \<open>record\<close>
  are: the size is stored before the sorting and selecting code is reached. Empty tokens
  count, since the split yields one token more than the text has delimiter characters.
\<close>

theorem count_is_number_of_tokens:
  "1 \<le> record \<Longrightarrow> i < nrow myMat \<Longrightarrow> j < ncol myMat \<Longrightarrow> cell myMat i j = Str my_string \<Longrightarrow>
     returns_retMat ext myMat delim 1 record sort_arg decreasing \<and>
     cell (retMat (masplit ext myMat delim 1 record sort_arg decreasing)) i j
       = Num (real (length (strsplit my_string (delim0 delim)))) \<and>
     length (strsplit my_string (delim0 delim)) = Suc (count_list my_string (delim0 delim))"
proof -
  assume a: "1 \<le> record" "i < nrow myMat" "j < ncol myMat" "cell myMat i j = Str my_string"
  have r: "returns_retMat ext myMat delim 1 record sort_arg decreasing"
    using a(1) by (simp add: returns_retMat_iff)
  from masplit_cell_value [OF r a(2,3)] a(4)
  show ?thesis using r by (simp add: masplit_cell_Str length_strsplit)
qed

theorem count_is_number_of_tokens_witness:
  "(1::int) \<le> 5 \<and> (0::nat) < 1 \<and> (1::nat) < 2 \<and>
   cell \<lparr>nrow = 1, ncol = 2, dimnames = None, elems = [NA_STRING, Str ''7,,x,12,'']\<rparr> 0 1
     = Str ''7,,x,12,'' \<and>
   cell (retMat (masplit float_extract
     \<lparr>nrow = 1, ncol = 2, dimnames = None, elems = [NA_STRING, Str ''7,,x,12,'']\<rparr>
     '','' 1 5 1 3)) 0 1 = Num 5"
proof -
  let ?G = "\<lparr>nrow = 1, ncol = 2, dimnames = None, elems = [NA_STRING, Str ''7,,x,12,'']\<rparr>"
  have c: "cell ?G 0 1 = Str ''7,,x,12,''"
    by (simp add: cell_def)
  have l: "length (strsplit ''7,,x,12,'' (delim0 '','')) = 5"
    by code_simp
  from count_is_number_of_tokens [of 5 0 ?G 1 "''7,,x,12,''" float_extract "'',''" 1 3] c l
  show ?thesis by simp
qed

text \<open>
  C5. With \<open>count\<close> other than 1 and \<open>sort = 1\<close>, the vector of converted tokens is
  sorted before the selection: with \<open>decreasing = 1\<close> the result is taken from the
  vector in descending order (the reverse of the ascending arrangement), with
  \<open>decreasing = 0\<close> from the vector in ascending order. On the text \<^verbatim>\<open>7,2,12\<close> split
  at a comma, with the three tokens converting to 7, 2 and 12, descending order and
  \<open>record = 1\<close> give 12, and ascending order and \<open>record = 3\<close> give 12.
\<close>

theorem sorted_before_selection:
  "1 \<le> record \<Longrightarrow> count_arg \<noteq> 1 \<Longrightarrow> i < nrow myMat \<Longrightarrow> j < ncol myMat \<Longrightarrow>
   cell myMat i j = Str my_string \<Longrightarrow>
     cell (retMat (masplit ext myMat delim count_arg record 1 1)) i j =
       (if int (length (strsplit my_string (delim0 delim))) < record then NA_REAL
        else Num (rev (sort (map (slot_value ext) (strsplit my_string (delim0 delim))))
                    ! nat (record - 1))) \<and>
     cell (retMat (masplit ext myMat delim count_arg record 1 0)) i j =
       (if int (length (strsplit my_string (delim0 delim))) < record then NA_REAL
        else Num (sort (map (slot_value ext) (strsplit my_string (delim0 delim)))
                    ! nat (record - 1))) \<and>
     (my_string = ''7,2,12'' \<and> delim0 delim = CHR '','' \<and>
      fst (ext ''7'' 0) = 7 \<and> fst (ext ''2'' 0) = 2 \<and> fst (ext ''12'' 0) = 12 \<longrightarrow>
        cell (retMat (masplit ext myMat delim count_arg 1 1 1)) i j = Num 12 \<and>
        cell (retMat (masplit ext myMat delim count_arg 3 1 0)) i j = Num 12)"
proof -
  assume a: "1 \<le> record" "count_arg \<noteq> 1" "i < nrow myMat" "j < ncol myMat"
    "cell myMat i j = Str my_string"
  have d: "cell (retMat (masplit ext myMat delim count_arg r 1 1)) i j =
       (if int (length (strsplit my_string (delim0 delim))) < r then NA_REAL
        else Num (rev (sort (map (slot_value ext) (strsplit my_string (delim0 delim))))
                    ! nat (r - 1)))" if "1 \<le> r" for r
    using masplit_select(2) [OF that a(2) _ a(3,4,5), of 1 1 ext delim] that
    by (simp add: select_record_eq)
  have u: "cell (retMat (masplit ext myMat delim count_arg r 1 0)) i j =
       (if int (length (strsplit my_string (delim0 delim))) < r then NA_REAL
        else Num (sort (map (slot_value ext) (strsplit my_string (delim0 delim)))
                    ! nat (r - 1)))" if "1 \<le> r" for r
    using masplit_select(2) [OF that a(2) _ a(3,4,5), of 1 0 ext delim] that
    by (simp add: select_record_eq)
  have e: "cell (retMat (masplit ext myMat delim count_arg 1 1 1)) i j = Num 12 \<and>
        cell (retMat (masplit ext myMat delim count_arg 3 1 0)) i j = Num 12"
    if "my_string = ''7,2,12''" "delim0 delim = CHR '',''"
      "fst (ext ''7'' 0) = 7" "fst (ext ''2'' 0) = 2" "fst (ext ''12'' 0) = 12"
  proof -
    have s: "strsplit my_string (delim0 delim) = [''7'', ''2'', ''12'']"
      using that by simp
    have "map (slot_value ext) [''7'', ''2'', ''12''] = [7, 2, 12]"
      using that by (simp add: slot_value_def)
    then show ?thesis
      using d [of 1] u [of 3] by (simp add: s)
  qed
  from d [OF a(1)] u [OF a(1)] e show ?thesis by blast
qed

theorem sorted_before_selection_witness:
  "(1::int) \<le> 2 \<and> (0::int) \<noteq> 1 \<and> (0::nat) < 1 \<and> (1 :: nat) < 2 \<and>
   cell \<lparr>nrow = 1, ncol = 2, dimnames = None, elems = [NA_STRING, Str ''7,2,12'']\<rparr> 0 1
     = Str ''7,2,12'' \<and>
   fst (float_extract ''7'' 0) = 7 \<and> fst (float_extract ''2'' 0) = 2 \<and>
   fst (float_extract ''12'' 0) = 12 \<and>
   cell (retMat (masplit float_extract
     \<lparr>nrow = 1, ncol = 2, dimnames = None, elems = [NA_STRING, Str ''7,2,12'']\<rparr>
     '','' 0 2 1 1)) 0 1 = Num 7 \<and>
   cell (retMat (masplit float_extract
     \<lparr>nrow = 1, ncol = 2, dimnames = None, elems = [NA_STRING, Str ''7,2,12'']\<rparr>
     '','' 0 2 1 0)) 0 1 = Num 7 \<and>
   cell (retMat (masplit float_extract
     \<lparr>nrow = 1, ncol = 2, dimnames = None, elems = [NA_STRING, Str ''7,2,12'']\<rparr>
     '','' 0 1 1 1)) 0 1 = Num 12 \<and>
   cell (retMat (masplit float_extract
     \<lparr>nrow = 1, ncol = 2, dimnames = None, elems = [NA_STRING, Str ''7,2,12'']\<rparr>
     '','' 0 3 1 0)) 0 1 = Num 12"
proof -
  let ?G = "\<lparr>nrow = 1, ncol = 2, dimnames = None, elems = [NA_STRING, Str ''7,2,12'']\<rparr>"
  have c: "cell ?G 0 1 = Str ''7,2,12''"
    by (simp add: cell_def)
  have x: "fst (float_extract ''7'' 0) = 7" "fst (float_extract ''2'' 0) = 2"
    "fst (float_extract ''12'' 0) = 12"
    by code_simp+
  have s: "strsplit ''7,2,12'' (delim0 '','') = [''7'', ''2'', ''12'']"
    by (simp add: delim0_def)
  have p: "map (slot_value float_extract) [''7'', ''2'', ''12''] = [7, 2, 12]"
    by (simp add: slot_value_def x)
  have "delim0 '','' = CHR '',''"
    by (simp add: delim0_def)
  with sorted_before_selection [of 2 0 0 ?G 1 "''7,2,12''" float_extract "'',''"] c x p
  show ?thesis by (simp add: s)
qed

text \<open>
  C8. A result other than \<open>naMat\<close> can only come from \<^verbatim>\<open>return retMat\<close>, and a call
  that leaves there returns a matrix with the extents of the input, whose vector has
  that many elements, after one assignment for each position: every position holds the
  value the body computes for the input element at that position.
\<close>

theorem result_has_extents_of_input:
  "(retMat (masplit ext myMat delim count_arg record sort_arg decreasing) \<noteq> naMat \<longrightarrow>
      returns_retMat ext myMat delim count_arg record sort_arg decreasing) \<and>
   (returns_retMat ext myMat delim count_arg record sort_arg decreasing \<longrightarrow>
      nrow (retMat (masplit ext myMat delim count_arg record sort_arg decreasing)) = nrow myMat \<and>
      ncol (retMat (masplit ext myMat delim count_arg record sort_arg decreasing)) = ncol myMat \<and>
      well_formed (retMat (masplit ext myMat delim count_arg record sort_arg decreasing)) \<and>
      assigned (masplit ext myMat delim count_arg record sort_arg decreasing)
        = nrow myMat * ncol myMat \<and>
      (\<forall>i j. i < nrow myMat \<and> j < ncol myMat \<longrightarrow>
         fst (masplit_cell ext delim count_arg (record - 1) sort_arg decreasing (cell myMat i j))
           = Some (cell (retMat (masplit ext myMat delim count_arg record sort_arg decreasing))
                     i j)))"
proof (intro conjI impI)
  assume d: "retMat (masplit ext myMat delim count_arg record sort_arg decreasing) \<noteq> naMat"
  show "returns_retMat ext myMat delim count_arg record sort_arg decreasing"
  proof (rule ccontr)
    assume n: "\<not> returns_retMat ext myMat delim count_arg record sort_arg decreasing"
    show False
    proof (cases "1 \<le> record")
      case False
      then have "retMat (masplit ext myMat delim count_arg record sort_arg decreasing) = naMat"
        by (simp add: masplit_record)
      with d show False by simp
    next
      case True
      with n have "has_text myMat \<and> count_arg \<noteq> 1 \<and> sort_arg = 1 \<and> decreasing \<noteq> 1
          \<and> decreasing \<noteq> 0"
        by (simp add: returns_retMat_iff)
      with True masplit_refused(2) [of "record" myMat count_arg sort_arg decreasing ext delim] d
      show False by simp
    qed
  qed
next
  assume r: "returns_retMat ext myMat delim count_arg record sort_arg decreasing"
  then have p: "1 \<le> record"
    and n: "\<not> (has_text myMat \<and> count_arg \<noteq> 1 \<and> sort_arg = 1 \<and> decreasing \<noteq> 1 \<and> decreasing \<noteq> 0)"
    by (simp_all add: returns_retMat_iff)
  show "nrow (retMat (masplit ext myMat delim count_arg record sort_arg decreasing)) = nrow myMat"
    by (rule masplit_full(2) [OF p n])
  show "ncol (retMat (masplit ext myMat delim count_arg record sort_arg decreasing)) = ncol myMat"
    by (rule masplit_full(3) [OF p n])
  show "well_formed (retMat (masplit ext myMat delim count_arg record sort_arg decreasing))"
    by (rule masplit_full(5) [OF p n])
  show "assigned (masplit ext myMat delim count_arg record sort_arg decreasing)
        = nrow myMat * ncol myMat"
    by (rule masplit_full(6) [OF p n])
  show "\<forall>i j. i < nrow myMat \<and> j < ncol myMat \<longrightarrow>
         fst (masplit_cell ext delim count_arg (record - 1) sort_arg decreasing (cell myMat i j))
           = Some (cell (retMat (masplit ext myMat delim count_arg record sort_arg decreasing))
                     i j)"
    using masplit_cell_value [OF r] by blast
qed

theorem result_has_extents_of_input_witness:
  "retMat (masplit float_extract
     \<lparr>nrow = 2, ncol = 2, dimnames = None,
      elems = [Str ''1,2'', Str ''3'', NA_STRING, Str ''4,.,6'']\<rparr> '','' 0 2 0 1) \<noteq> naMat \<and>
   returns_retMat float_extract
     \<lparr>nrow = 2, ncol = 2, dimnames = None,
      elems = [Str ''1,2'', Str ''3'', NA_STRING, Str ''4,.,6'']\<rparr> '','' 0 2 0 1 \<and>
   nrow (retMat (masplit float_extract
     \<lparr>nrow = 2, ncol = 2, dimnames = None,
      elems = [Str ''1,2'', Str ''3'', NA_STRING, Str ''4,.,6'']\<rparr> '','' 0 2 0 1)) = 2 \<and>
   ncol (retMat (masplit float_extract
     \<lparr>nrow = 2, ncol = 2, dimnames = None,
      elems = [Str ''1,2'', Str ''3'', NA_STRING, Str ''4,.,6'']\<rparr> '','' 0 2 0 1)) = 2 \<and>
   assigned (masplit float_extract
     \<lparr>nrow = 2, ncol = 2, dimnames = None,
      elems = [Str ''1,2'', Str ''3'', NA_STRING, Str ''4,.,6'']\<rparr> '','' 0 2 0 1) = 4"
proof -
  let ?G = "\<lparr>nrow = 2, ncol = 2, dimnames = None,
      elems = [Str ''1,2'', Str ''3'', NA_STRING, Str ''4,.,6'']\<rparr>"
  have d: "retMat (masplit float_extract ?G '','' 0 2 0 1) \<noteq> naMat"
    by code_simp
  from result_has_extents_of_input [of float_extract ?G "'',''" 0 2 0 1] d
  show ?thesis by simp
qed




text \<open>
  C6. With \<open>count\<close> other than 1, \<open>record\<close> at least one and a \<open>decreasing\<close> that
  the sorting step accepts, the call runs to the end, and for an element that is not
  missing the result is \<^verbatim>\<open>NA_REAL\<close> when the vector, sorted or not, has fewer than
  \<open>record\<close> elements, and otherwise its element at the zero-based position
  \<open>record - 1\<close>. The vector has one element for each token.
\<close>

theorem select_record_or_NA:
  "1 \<le> record \<Longrightarrow> count_arg \<noteq> 1 \<Longrightarrow> sort_arg = 1 \<longrightarrow> decreasing = 0 \<or> decreasing = 1 \<Longrightarrow>
   i < nrow myMat \<Longrightarrow> j < ncol myMat \<Longrightarrow> cell myMat i j = Str my_string \<Longrightarrow>
   float_vec =
     (if sort_arg = 1
      then (if decreasing = 1
            then rev (sort (map (slot_value ext) (strsplit my_string (delim0 delim))))
            else sort (map (slot_value ext) (strsplit my_string (delim0 delim))))
      else map (slot_value ext) (strsplit my_string (delim0 delim))) \<Longrightarrow>
     returns_retMat ext myMat delim count_arg record sort_arg decreasing \<and>
     length float_vec = length (strsplit my_string (delim0 delim)) \<and>
     cell (retMat (masplit ext myMat delim count_arg record sort_arg decreasing)) i j =
       (if int (length float_vec) < record then NA_REAL
        else Num (float_vec ! nat (record - 1)))"
proof -
  assume a: "1 \<le> record" "count_arg \<noteq> 1" "sort_arg = 1 \<longrightarrow> decreasing = 0 \<or> decreasing = 1"
    "i < nrow myMat" "j < ncol myMat" "cell myMat i j = Str my_string"
    and f: "float_vec =
     (if sort_arg = 1
      then (if decreasing = 1
            then rev (sort (map (slot_value ext) (strsplit my_string (delim0 delim))))
            else sort (map (slot_value ext) (strsplit my_string (delim0 delim))))
      else map (slot_value ext) (strsplit my_string (delim0 delim)))"
  have l: "length float_vec = length (strsplit my_string (delim0 delim))"
    unfolding f by simp
  from masplit_select [OF a, of ext delim] l show ?thesis
    unfolding f [symmetric] by (simp add: select_record_eq [OF a(1)])
qed

theorem select_record_or_NA_witness:
  "(1::int) \<le> 2 \<and> (0::int) \<noteq> 1 \<and> ((1::int) = 0 \<or> (1::int) = 1) \<and>
   (0::nat) < 1 \<and> (0::nat) < 2 \<and>
   cell \<lparr>nrow = 1, ncol = 2, dimnames = None, elems = [Str ''9'', Str ''7,2,12'']\<rparr> 0 0
     = Str ''9'' \<and>
   returns_retMat float_extract
     \<lparr>nrow = 1, ncol = 2, dimnames = None, elems = [Str ''9'', Str ''7,2,12'']\<rparr>
     '','' 0 2 1 1 \<and>
   cell (retMat (masplit float_extract
     \<lparr>nrow = 1, ncol = 2, dimnames = None, elems = [Str ''9'', Str ''7,2,12'']\<rparr>
     '','' 0 2 1 1)) 0 0 = NA_REAL"
proof -
  let ?G = "\<lparr>nrow = 1, ncol = 2, dimnames = None, elems = [Str ''9'', Str ''7,2,12'']\<rparr>"
  have h: "(1::int) \<le> 2" "(0::int) \<noteq> 1" "(1::int) = 1 \<longrightarrow> (1::int) = 0 \<or> (1::int) = 1"
    "(0::nat) < nrow ?G" "(0::nat) < ncol ?G"
    by simp_all
  have c: "cell ?G 0 0 = Str ''9''"
    by (simp add: cell_def)
  have s: "strsplit ''9'' (delim0 '','') = [''9'']"
    by (simp add: delim0_def)
  note t = select_record_or_NA [of 2 0 1 1 0 ?G 0 "''9''" _ float_extract "'',''", OF h c refl]
  from t have "returns_retMat float_extract ?G '','' 0 2 1 1"
    by blast
  moreover from t have "cell (retMat (masplit float_extract ?G '','' 0 2 1 1)) 0 0 = NA_REAL"
    by (simp add: delim0_def)
  ultimately show ?thesis
    using c by simp
qed

text \<open>
  C9, as stated, does not hold. On a matrix of one row and one column without
  \<^verbatim>\<open>dimnames\<close> whose only element is missing, the call runs to the end and leaves
  through \<^verbatim>\<open>return retMat\<close>, and the matrix it returns is equal to \<open>naMat\<close>.
\<close>

theorem sentinel_equals_result_counterexample:
  "returns_retMat float_extract
     \<lparr>nrow = 1, ncol = 1, dimnames = None, elems = [NA_STRING]\<rparr> '','' 0 1 1 1 \<and>
   retMat (masplit float_extract
     \<lparr>nrow = 1, ncol = 1, dimnames = None, elems = [NA_STRING]\<rparr> '','' 0 1 1 1) = naMat"
  by code_simp

text \<open>
  C9, amended. The result of a call that leaves through \<^verbatim>\<open>return retMat\<close> has the
  extents and the \<^verbatim>\<open>dimnames\<close> of the input, so it is equal to \<open>naMat\<close> only when
  the input has one row, one column and no \<^verbatim>\<open>dimnames\<close>, and its single element
  reduces to \<^verbatim>\<open>NA_REAL\<close>; in every other case the two are distinct.
\<close>

theorem sentinel_equals_result_only_one_by_one:
  "returns_retMat ext myMat delim count_arg record sort_arg decreasing \<Longrightarrow>
     (retMat (masplit ext myMat delim count_arg record sort_arg decreasing) = naMat) =
     (nrow myMat = 1 \<and> ncol myMat = 1 \<and> dimnames myMat = None \<and>
      fst (masplit_cell ext delim count_arg (record - 1) sort_arg decreasing (cell myMat 0 0))
        = Some NA_REAL)"
proof -
  let ?r = "retMat (masplit ext myMat delim count_arg record sort_arg decreasing)"
  assume r: "returns_retMat ext myMat delim count_arg record sort_arg decreasing"
  then have p: "1 \<le> record"
    and n: "\<not> (has_text myMat \<and> count_arg \<noteq> 1 \<and> sort_arg = 1 \<and> decreasing \<noteq> 1 \<and> decreasing \<noteq> 0)"
    by (simp_all add: returns_retMat_iff)
  note f = masplit_full(2,3,4,5) [OF p n, of ext delim]
  show ?thesis
  proof
    assume e: "?r = naMat"
    with f(1,2,3) have d: "nrow myMat = 1" "ncol myMat = 1" "dimnames myMat = None"
      by (simp_all add: naMat_def)
    have "cell ?r 0 0 = NA_REAL"
      unfolding e by (simp add: naMat_def cell_def)
    with masplit_cell_value [OF r, of 0 0] d
    show "nrow myMat = 1 \<and> ncol myMat = 1 \<and> dimnames myMat = None \<and>
      fst (masplit_cell ext delim count_arg (record - 1) sort_arg decreasing (cell myMat 0 0))
        = Some NA_REAL"
      by simp
  next
    assume a: "nrow myMat = 1 \<and> ncol myMat = 1 \<and> dimnames myMat = None \<and>
      fst (masplit_cell ext delim count_arg (record - 1) sort_arg decreasing (cell myMat 0 0))
        = Some NA_REAL"
    with masplit_cell_value [OF r, of 0 0] have "cell ?r 0 0 = NA_REAL"
      by simp
    with a f show "?r = naMat"
      by (intro one_by_one) simp_all
  qed
qed

theorem sentinel_equals_result_only_one_by_one_witness:
  "returns_retMat float_extract
     \<lparr>nrow = 2, ncol = 1, dimnames = None, elems = [NA_STRING, NA_STRING]\<rparr> '','' 0 1 1 1 \<and>
   retMat (masplit float_extract
     \<lparr>nrow = 2, ncol = 1, dimnames = None, elems = [NA_STRING, NA_STRING]\<rparr> '','' 0 1 1 1)
     \<noteq> naMat"
proof -
  let ?G = "\<lparr>nrow = 2, ncol = 1, dimnames = None, elems = [NA_STRING, NA_STRING]\<rparr>"
  have r: "returns_retMat float_extract ?G '','' 0 1 1 1"
    by code_simp
  from sentinel_equals_result_only_one_by_one [OF r] r show ?thesis
    by simp
qed

text \<open>
  C10. Of a delimiter string that is not empty only the first character is read, and
  that character is the one the text is split at: the count of an element that is not
  missing is the number of tokens of its text split at the first character of
  \<open>delim\<close>, and the selection without sorting reads the tokens of that split. So two
  non-empty delimiter strings with the same first character give the same returned
  matrix, the same text on \<^verbatim>\<open>Rcerr\<close> and the same number of assignments on every
  input, and a delimiter string gives what the string of its first character alone
  gives.
\<close>

theorem only_first_character_of_delim:
  "delim \<noteq> [] \<Longrightarrow> delim' \<noteq> [] \<Longrightarrow> hd delim = hd delim' \<Longrightarrow>
     masplit ext myMat delim count_arg record sort_arg decreasing
       = masplit ext myMat delim' count_arg record sort_arg decreasing \<and>
     masplit ext myMat delim count_arg record sort_arg decreasing
       = masplit ext myMat [hd delim] count_arg record sort_arg decreasing \<and>
     delim0 delim = hd delim \<and>
     (1 \<le> record \<and> i < nrow myMat \<and> j < ncol myMat \<and> cell myMat i j = Str my_string \<longrightarrow>
        cell (retMat (masplit ext myMat delim 1 record sort_arg decreasing)) i j
          = Num (real (length (strsplit my_string (hd delim)))) \<and>
        (count_arg \<noteq> 1 \<and> sort_arg \<noteq> 1 \<longrightarrow>
           cell (retMat (masplit ext myMat delim count_arg record sort_arg decreasing)) i j
             = select_record (record - 1)
                 (map (\<lambda>tok. fst (ext tok 0)) (strsplit my_string (hd delim)))))"
proof -
  assume a: "delim \<noteq> []" "delim' \<noteq> []" "hd delim = hd delim'"
  have 3: "delim0 delim = hd delim"
    using a(1) by (cases delim) (simp_all add: delim0_def)
  have "delim0 delim' = hd delim'"
    using a(2) by (cases delim') (simp_all add: delim0_def)
  with 3 a(3) have 1: "delim0 delim = delim0 delim'"
    by simp
  have 2: "delim0 delim = delim0 [hd delim]"
    using 3 by (simp add: delim0_def)
  have 4: "masplit ext myMat delim count_arg record sort_arg decreasing
       = masplit ext myMat delim' count_arg record sort_arg decreasing"
    by (simp only: masplit_def masplit_cell_delim [OF 1])
  have 5: "masplit ext myMat delim count_arg record sort_arg decreasing
       = masplit ext myMat [hd delim] count_arg record sort_arg decreasing"
    by (simp only: masplit_def masplit_cell_delim [OF 2])
  have 6: "cell (retMat (masplit ext myMat delim 1 record sort_arg decreasing)) i j
          = Num (real (length (strsplit my_string (hd delim))))"
    if b: "1 \<le> record" "i < nrow myMat" "j < ncol myMat" "cell myMat i j = Str my_string"
  proof -
    have r: "returns_retMat ext myMat delim 1 record sort_arg decreasing"
      using b(1) by (simp add: returns_retMat_iff)
    from masplit_cell_value [OF r b(2,3)] b(4) show ?thesis
      by (simp add: masplit_cell_Str 3)
  qed
  have 7: "cell (retMat (masplit ext myMat delim count_arg record sort_arg decreasing)) i j
             = select_record (record - 1)
                 (map (\<lambda>tok. fst (ext tok 0)) (strsplit my_string (hd delim)))"
    if b: "1 \<le> record" "i < nrow myMat" "j < ncol myMat" "cell myMat i j = Str my_string"
      and c: "count_arg \<noteq> 1" "sort_arg \<noteq> 1"
  proof -
    have m: "map (slot_value ext) (strsplit my_string (hd delim))
        = map (\<lambda>tok. fst (ext tok 0)) (strsplit my_string (hd delim))"
      by (simp add: slot_value_def)
    from masplit_select(2) [OF b(1) c(1) _ b(2,3,4), of sort_arg decreasing ext delim] c(2)
    show ?thesis
      by (simp add: 3 m)
  qed
  from 3 4 5 6 7 show ?thesis by blast
qed

theorem only_first_character_of_delim_witness:
  "'';,x'' \<noteq> [] \<and> '';'' \<noteq> [] \<and> hd '';,x'' = hd '';'' \<and>
   (1::int) \<le> 2 \<and> (0::nat) < 1 \<and> (0::nat) < 2 \<and>
   cell \<lparr>nrow = 1, ncol = 2, dimnames = None, elems = [Str ''7,1;2,12'', NA_STRING]\<rparr> 0 0
     = Str ''7,1;2,12'' \<and>
   masplit float_extract
     \<lparr>nrow = 1, ncol = 2, dimnames = None, elems = [Str ''7,1;2,12'', NA_STRING]\<rparr>
     '';,x'' 0 2 0 1 =
   masplit float_extract
     \<lparr>nrow = 1, ncol = 2, dimnames = None, elems = [Str ''7,1;2,12'', NA_STRING]\<rparr>
     '';'' 0 2 0 1 \<and>
   cell (retMat (masplit float_extract
     \<lparr>nrow = 1, ncol = 2, dimnames = None, elems = [Str ''7,1;2,12'', NA_STRING]\<rparr>
     '';,x'' 1 2 0 1)) 0 0 = Num 2 \<and>
   cell (retMat (masplit float_extract
     \<lparr>nrow = 1, ncol = 2, dimnames = None, elems = [Str ''7,1;2,12'', NA_STRING]\<rparr>
     '';,x'' 0 2 0 1)) 0 0 = Num 2"
proof -
  let ?G = "\<lparr>nrow = 1, ncol = 2, dimnames = None, elems = [Str ''7,1;2,12'', NA_STRING]\<rparr>"
  have h: "'';,x'' \<noteq> []" "'';'' \<noteq> []" "hd '';,x'' = hd '';''"
    by simp_all
  have g: "(1::int) \<le> 2" "(0::nat) < nrow ?G" "(0::nat) < ncol ?G"
    by simp_all
  have c: "cell ?G 0 0 = Str ''7,1;2,12''"
    by (simp add: cell_def)
  have s: "strsplit ''7,1;2,12'' (hd '';,x'') = [''7,1'', ''2,12'']"
    by simp
  have x: "fst (float_extract ''2,12'' 0) = 2"
    by code_simp
  note t = only_first_character_of_delim [OF h, of float_extract ?G 0 2 0 1 0 0 "''7,1;2,12''"]
  from t have "masplit float_extract ?G '';,x'' 0 2 0 1 = masplit float_extract ?G '';'' 0 2 0 1"
    by blast
  moreover from t g c
  have "cell (retMat (masplit float_extract ?G '';,x'' 1 2 0 1)) 0 0
      = Num (real (length (strsplit ''7,1;2,12'' (hd '';,x''))))"
    by blast
  then have "cell (retMat (masplit float_extract ?G '';,x'' 1 2 0 1)) 0 0 = Num 2"
    unfolding s by simp
  moreover have "(0::int) \<noteq> 1"
    by simp
  with t g c
  have "cell (retMat (masplit float_extract ?G '';,x'' 0 2 0 1)) 0 0
      = select_record (2 - 1) (map (\<lambda>tok. fst (float_extract tok 0))
          (strsplit ''7,1;2,12'' (hd '';,x'')))"
    by blast
  then have "cell (retMat (masplit float_extract ?G '';,x'' 0 2 0 1)) 0 0 = Num 2"
    unfolding s by (simp add: select_record_def x)
  ultimately show ?thesis
    using c by simp
qed

end
